theory Spec2Isabelle
  imports Main "HOL-Library.Word"
begin

section \<open>The process event cache of daemon/procmon/cache\_events.go\<close>

text \<open>
  The cache maps a PID to an \<open>ExecEventItem\<close>, a copy of a \<open>Process\<close> with a
  \<open>LastSeen\<close> stamp. The store is modelled sequentially: every method is one
  state transformer on the \<open>EventsStore\<close> record, the mutex \<open>mu\<close> is left out.
  Whatever a method reads from the world (the clock, the process table, the hashing and
  ancestry routines of \<open>Process\<close>) is a field of the \<open>env\<close> record it is given; one
  call sees one clock reading and one state of the process table. A \<open>Process\<close> is a
  value: two \<open>*Process\<close> arguments of one call are taken to be distinct objects.
  Logging and \<open>Len\<close>, which only feeds the log lines, are left out.
\<close>

subsection \<open>Data model\<close>

text \<open>
  Modelled from the spec: the struct \<open>Process\<close> is declared in another file of the
  package. Only the fields that cache\_events.go touches are kept: \<open>ID\<close>, \<open>PPID\<close>
  (Go \<open>int\<close>), \<open>Path\<close>, \<open>Starttime\<close> (the spec's integer: signed, logged with \<open>%d\<close>
  and compared with \<open>>\<close>), \<open>Tree\<close> (a slice, only its length is read here), \<open>Checksums\<close> (algorithm
  name and digest, counted by \<open>ChecksumsCount\<close>) and the back pointer \<open>Parent\<close>.
\<close>

datatype Process = Process
  (ID: int)
  (PPID: int)
  (Path: string)
  (Starttime: int)
  (Tree: "(string \<times> int) list")
  (Checksums: "(string \<times> string) list")
  (Parent: "Process option")

text \<open>Field assignments through a \<open>*Process\<close>.\<close>

definition set_PPID :: "int \<Rightarrow> Process \<Rightarrow> Process" where
  "set_PPID v p = Process (ID p) v (Path p) (Starttime p) (Tree p) (Checksums p) (Parent p)"

definition set_Tree :: "(string \<times> int) list \<Rightarrow> Process \<Rightarrow> Process" where
  "set_Tree v p = Process (ID p) (PPID p) (Path p) (Starttime p) v (Checksums p) (Parent p)"

definition set_Checksums :: "(string \<times> string) list \<Rightarrow> Process \<Rightarrow> Process" where
  "set_Checksums v p = Process (ID p) (PPID p) (Path p) (Starttime p) (Tree p) v (Parent p)"

definition set_Parent :: "Process option \<Rightarrow> Process \<Rightarrow> Process" where
  "set_Parent v p = Process (ID p) (PPID p) (Path p) (Starttime p) (Tree p) (Checksums p) v"

text \<open>Modelled from the spec: \<open>ChecksumsCount()\<close> is the number of checksums held.\<close>

definition ChecksumsCount :: "Process \<Rightarrow> nat" where
  "ChecksumsCount p = length (Checksums p)"

text \<open>The zero value of \<open>Process\<close>, which Go gives for a missing map key.\<close>

definition zero_Process :: Process where
  "zero_Process = Process 0 0 [] 0 [] [] None"

text \<open>\<open>LastSeen\<close> is an \<open>int64\<close> of nanoseconds, \<open>TTL\<close> an \<open>int32\<close>.\<close>

record ExecEventItem =
  Proc :: Process
  LastSeen :: int
  TTL :: "32 word"

definition zero_ExecEventItem :: ExecEventItem where
  "zero_ExecEventItem = \<lparr>Proc = zero_Process, LastSeen = 0, TTL = 0\<rparr>"

text \<open>\<open>checksums\<close> is a \<open>map[string]uint\<close>; \<open>uint\<close> has 64 bits on the daemon's platforms.\<close>

record EventsStore =
  eventByPID :: "int \<rightharpoonup> ExecEventItem"
  checksums :: "string \<rightharpoonup> 64 word"
  checksumsEnabled :: bool

text \<open>
  What a method reads from outside the store. \<open>now\<close> is \<open>time.Now().UnixNano()\<close>,
  \<open>alive\<close> is \<open>Process.IsAlive()\<close> at the moment of the call.

  Modelled from the spec: \<open>GetParent\<close>, \<open>BuildTree\<close>, \<open>ComputeChecksums\<close> and
  \<open>ResetChecksums\<close> are methods of \<open>Process\<close> declared in another file. By the spec,
  the first two resolve the ancestry (the parent link and the tree) and the last two
  populate or clear the checksums; each is a function giving the new value of that field.
\<close>

record env =
  now :: int
  alive :: "Process \<Rightarrow> bool"
  getParent :: "Process \<Rightarrow> Process option"
  buildTree :: "Process \<Rightarrow> (string \<times> int) list"
  computeChecksums :: "(string \<rightharpoonup> 64 word) \<Rightarrow> Process \<Rightarrow> (string \<times> string) list"
  resetChecksums :: "Process \<Rightarrow> (string \<times> string) list"

definition pidTTL :: int where
  "pidTTL = 20"

text \<open>\<open>exitDelay\<close> is the duration \<open>2s\<close>, in nanoseconds.\<close>

definition exitDelay :: int where
  "exitDelay = 2000000000"

subsection \<open>Time\<close>

text \<open>
  \<open>Time.Sub\<close> returns a \<open>Duration\<close>, an \<open>int64\<close> of nanoseconds, and saturates instead
  of wrapping.
\<close>

definition maxDuration :: int where
  "maxDuration = 2 ^ 63 - 1"

definition minDuration :: int where
  "minDuration = - (2 ^ 63)"

definition time_Sub :: "int \<Rightarrow> int \<Rightarrow> int" where
  "time_Sub t u =
     (let d = t - u
      in if d > maxDuration then maxDuration
         else if d < minDuration then minDuration
         else d)"

text \<open>
  \<open>int(d.Seconds())\<close>: the whole seconds of a duration, rounded towards zero.
  \<open>Seconds()\<close> is a \<open>float64\<close>, the whole seconds plus the fraction; up to and beyond
  the 20 s of \<open>pidTTL\<close> that sum is below 20 exactly when the duration is, so the
  comparison in \<open>isValid\<close> is the one of the truncated quotient.
\<close>

definition whole_seconds :: "int \<Rightarrow> int" where
  "whole_seconds d = (if d < 0 then - ((- d) div 1000000000) else d div 1000000000)"

definition isValid :: "int \<Rightarrow> ExecEventItem \<Rightarrow> bool" where
  "isValid t e = (whole_seconds (time_Sub t (LastSeen e)) < pidTTL)"

subsection \<open>The store\<close>

definition NewEventsStore :: EventsStore where
  "NewEventsStore = \<lparr>eventByPID = Map.empty, checksums = Map.empty, checksumsEnabled = False\<rparr>"

text \<open>A map read \<open>m[k]\<close> without the \<open>found\<close> result: the zero value for a missing key.\<close>

definition lookup_item :: "(int \<rightharpoonup> ExecEventItem) \<Rightarrow> int \<Rightarrow> ExecEventItem" where
  "lookup_item m k = (case m k of None \<Rightarrow> zero_ExecEventItem | Some it \<Rightarrow> it)"

definition UpdateItem :: "env \<Rightarrow> Process \<Rightarrow> EventsStore \<Rightarrow> EventsStore" where
  "UpdateItem ev proc e =
     (if Path proc = [] then e
      else
        let oldItem = lookup_item (eventByPID e) (ID proc)
        in if Path (Proc oldItem) \<noteq> Path proc \<and> Starttime (Proc oldItem) > Starttime proc
           then e
           else e\<lparr>eventByPID := (eventByPID e)
                    (ID proc \<mapsto> \<lparr>Proc = proc, LastSeen = now ev, TTL = 0\<rparr>)\<rparr>)"

definition GetComputeChecksums :: "EventsStore \<Rightarrow> bool" where
  "GetComputeChecksums e = checksumsEnabled e"

text \<open>
  \<open>EventsStore.ComputeChecksums\<close> changes the process it is given, not the store: the
  result is the process after the call and the boolean returned.
\<close>

definition ComputeChecksums :: "env \<Rightarrow> Process \<Rightarrow> EventsStore \<Rightarrow> Process \<times> bool" where
  "ComputeChecksums ev proc e =
     (if \<not> checksumsEnabled e \<or> (alive ev proc \<and> ChecksumsCount proc > 0)
      then (proc, False)
      else (set_Checksums (computeChecksums ev (checksums e) proc) proc, True))"

text \<open>\<open>Add\<close> returns the process as the caller sees it afterwards, and the store.\<close>

definition Add :: "env \<Rightarrow> Process \<Rightarrow> EventsStore \<Rightarrow> Process \<times> EventsStore" where
  "Add ev proc e =
     (let e1 = UpdateItem ev proc e
      in if GetComputeChecksums e1
         then (case ComputeChecksums ev proc e1 of
                 (proc1, computed) \<Rightarrow>
                   if computed then (proc1, UpdateItem ev proc1 e1) else (proc1, e1))
         else (proc, e1))"

text \<open>
  \<open>IsInStoreByPID\<close> copies the entry into the result \<open>item\<close> and then assigns
  \<open>item.LastSeen\<close>, a field of that copy. The store is part of the result, to show what
  the call leaves in it.
\<close>

definition IsInStoreByPID :: "env \<Rightarrow> int \<Rightarrow> EventsStore \<Rightarrow> ExecEventItem \<times> bool \<times> EventsStore" where
  "IsInStoreByPID ev key e =
     (case eventByPID e key of
        None \<Rightarrow> (zero_ExecEventItem, False, e)
      | Some item \<Rightarrow> (item\<lparr>LastSeen := now ev\<rparr>, True, e))"

definition GetParent :: "env \<Rightarrow> Process \<Rightarrow> Process" where
  "GetParent ev p = set_Parent (getParent ev p) p"

definition BuildTree :: "env \<Rightarrow> Process \<Rightarrow> Process" where
  "BuildTree ev p = set_Tree (buildTree ev p) p"

text \<open>
  \<open>ReplaceItem\<close> returns \<open>oldProc\<close> and \<open>newProc\<close> as they are after the call, and the
  store.
\<close>

definition ReplaceItem ::
  "env \<Rightarrow> Process \<Rightarrow> Process \<Rightarrow> EventsStore \<Rightarrow> Process \<times> Process \<times> EventsStore" where
  "ReplaceItem ev oldProc newProc e =
     (let new1 = set_PPID (ID oldProc) newProc;
          e1 = UpdateItem ev new1 e;
          (new2, e2) =
            (if ChecksumsCount new1 = 0
             then (let new' = fst (ComputeChecksums ev new1 e1) in (new', UpdateItem ev new' e1))
             else (new1, e1));
          (old1, e3) =
            (if length (Tree oldProc) = 0
             then (let old' = BuildTree ev (GetParent ev oldProc) in (old', UpdateItem ev old' e2))
             else (oldProc, e2));
          (new3, e4) =
            (if length (Tree new2) = 0
             then (let new' = BuildTree ev (set_Parent (Some old1) new2)
                   in (new', UpdateItem ev new' e3))
             else (new2, e3))
      in (old1, new3, e4))"

text \<open>
  \<open>Update\<close> takes a \<open>proc\<close> that may be \<open>nil\<close> (\<open>None\<close>). Reading a field of a nil
  pointer, or passing it to a method that does, panics: the result \<open>Inl\<close>. The guards
  \<open>proc != nil && ...\<close> evaluate their right side only for a non-nil \<open>proc\<close>.
\<close>

datatype panic = NilPointerDereference

definition Update ::
  "env \<Rightarrow> Process \<Rightarrow> Process option \<Rightarrow> EventsStore
     \<Rightarrow> panic + (Process \<times> Process option \<times> EventsStore)" where
  "Update ev oldProc proc e =
     (if (case proc of None \<Rightarrow> False
          | Some p \<Rightarrow> ID p = ID oldProc \<and> Path p \<noteq> Path oldProc)
      then (case proc of
              None \<Rightarrow> Inl NilPointerDereference
            | Some p \<Rightarrow>
                (case ReplaceItem ev oldProc p e of (old', new', e') \<Rightarrow> Inr (old', Some new', e')))
      else
        let (old1, updateOld) =
              (if length (Tree oldProc) = 0
               then (BuildTree ev (GetParent ev oldProc), True)
               else (oldProc, False));
            (proc1, update) =
              (case proc of
                 None \<Rightarrow> (None, False)
               | Some p \<Rightarrow>
                   if length (Tree old1) > 0 \<and> length (Tree p) = 0 \<and> ID old1 = ID p
                   then (Some (set_Tree (Tree old1) p), True)
                   else (Some p, False));
            e1 = (if updateOld then UpdateItem ev old1 e else e)
        in if update
           then (case proc1 of
                   None \<Rightarrow> Inl NilPointerDereference
                 | Some p \<Rightarrow> Inr (old1, proc1, UpdateItem ev p e1))
           else Inr (old1, proc1, e1))"

text \<open>
  \<open>needsUpdate\<close> is called with the address of a local item's \<open>Proc\<close>, never nil; the
  candidate \<open>proc\<close> may be nil. \<open>sumsCount\<close> is the cached process's count.
\<close>

definition needsUpdate :: "env \<Rightarrow> Process \<Rightarrow> Process option \<Rightarrow> bool" where
  "needsUpdate ev cachedProc proc =
     (let sumsCount = ChecksumsCount cachedProc
      in if (case proc of None \<Rightarrow> False
             | Some p \<Rightarrow> ID p = ID cachedProc \<and> Path p \<noteq> Path cachedProc)
         then True
         else if proc \<noteq> None \<and> sumsCount > 0 \<and> alive ev cachedProc then False
         else if sumsCount = 0 then True
         else if (case proc of None \<Rightarrow> False | Some p \<Rightarrow> length (Tree p) = 0) then True
         else if length (Tree cachedProc) = 0 then True
         else False)"

text \<open>\<open>IsInStore\<close> returns \<open>(item, needsUpdate, found)\<close>.\<close>

definition IsInStore ::
  "env \<Rightarrow> int \<Rightarrow> Process option \<Rightarrow> EventsStore \<Rightarrow> ExecEventItem \<times> bool \<times> bool" where
  "IsInStore ev key proc e =
     (case IsInStoreByPID ev key e of
        (item, found, _) \<Rightarrow>
          if \<not> found then (item, False, False)
          else if needsUpdate ev (Proc item) proc then (item, True, True)
          else (item, False, True))"

subsection \<open>Deferred deletion\<close>

text \<open>
  \<open>Delete\<close> copies the entry into \<open>ev\<close> and arms a timer whose function closes over
  \<open>key\<close> and that copy. A pending timer is its due time, the key and the captured item;
  \<open>timer_fire\<close> is the body of the timer's function.
\<close>

type_synonym timer = "int \<times> int \<times> ExecEventItem"

definition Delete :: "env \<Rightarrow> int \<Rightarrow> EventsStore \<Rightarrow> timer option" where
  "Delete ev key e =
     (case eventByPID e key of
        None \<Rightarrow> None
      | Some item \<Rightarrow> Some (now ev + exitDelay, key, item))"

definition timer_fire :: "env \<Rightarrow> timer \<Rightarrow> EventsStore \<Rightarrow> EventsStore" where
  "timer_fire ev t e =
     (case t of
        (due, key, item) \<Rightarrow>
          if \<not> alive ev (Proc item)
          then e\<lparr>eventByPID := (eventByPID e)(key := None)\<rparr>
          else e)"

subsection \<open>The janitor\<close>

text \<open>
  The \<open>range\<close> loop of \<open>DeleteOldItems\<close> visits the keys in an order the runtime picks:
  the list \<open>ks\<close>. A key deleted before its turn is not visited.
\<close>

fun DeleteOldItems_loop ::
  "env \<Rightarrow> int list \<Rightarrow> (int \<rightharpoonup> ExecEventItem) \<Rightarrow> (int \<rightharpoonup> ExecEventItem)" where
  "DeleteOldItems_loop ev [] m = m"
| "DeleteOldItems_loop ev (k # ks) m =
     (case m k of
        None \<Rightarrow> DeleteOldItems_loop ev ks m
      | Some item \<Rightarrow>
          if \<not> isValid (now ev) item \<and> \<not> alive ev (Proc item)
          then DeleteOldItems_loop ev ks (m(k := None))
          else DeleteOldItems_loop ev ks m)"

definition DeleteOldItems :: "env \<Rightarrow> int list \<Rightarrow> EventsStore \<Rightarrow> EventsStore" where
  "DeleteOldItems ev ks e = e\<lparr>eventByPID := DeleteOldItems_loop ev ks (eventByPID e)\<rparr>"

subsection \<open>Checksum policy\<close>

text \<open>\<open>e.checksums[hash]++\<close> reads the zero value for a missing key and stores the sum.\<close>

definition AddChecksumHash :: "string \<Rightarrow> EventsStore \<Rightarrow> EventsStore" where
  "AddChecksumHash hash e =
     e\<lparr>checksums := (checksums e)
          (hash \<mapsto> (case checksums e hash of None \<Rightarrow> 0 | Some c \<Rightarrow> c) + 1)\<rparr>"

definition DelChecksumHash :: "string \<Rightarrow> EventsStore \<Rightarrow> EventsStore" where
  "DelChecksumHash hash e =
     (case checksums e hash of
        None \<Rightarrow> e
      | Some c \<Rightarrow> e\<lparr>checksums := (checksums e)(hash \<mapsto> c - 1)\<rparr>)"

text \<open>
  \<open>SetComputeChecksums\<close> calls \<open>ResetChecksums\<close> or \<open>ComputeChecksums\<close> on a copy of each
  item; \<open>resetChecksums\<close> and \<open>computeChecksums\<close> give the checksums the stored entry
  holds afterwards.
\<close>

definition SetComputeChecksums :: "env \<Rightarrow> bool \<Rightarrow> EventsStore \<Rightarrow> EventsStore" where
  "SetComputeChecksums ev compute e =
     (if compute = checksumsEnabled e then e
      else if \<not> compute
      then e\<lparr>checksumsEnabled := compute,
              eventByPID := (\<lambda>k. map_option
                 (\<lambda>item. item\<lparr>Proc := set_Checksums (resetChecksums ev (Proc item)) (Proc item)\<rparr>)
                 (eventByPID e k))\<rparr>
      else e\<lparr>checksumsEnabled := compute,
              eventByPID := (\<lambda>k. map_option
                 (\<lambda>item. if ChecksumsCount (Proc item) = 0
                    then item\<lparr>Proc := set_Checksums
                           (computeChecksums ev (checksums e) (Proc item)) (Proc item)\<rparr>
                    else item)
                 (eventByPID e k))\<rparr>)"

definition DisableChecksums :: "EventsStore \<Rightarrow> EventsStore" where
  "DisableChecksums e = e\<lparr>checksumsEnabled := False, checksums := Map.empty\<rparr>"

subsection \<open>Runs of the cache\<close>

text \<open>
  The cache together with its pending timers. A run is a list of calls, each with the
  environment it sees; a timer fires when it is due.
\<close>

record system =
  store :: EventsStore
  timers :: "timer list"

datatype op =
    OpAdd Process
  | OpUpdateItem Process
  | OpReplaceItem Process Process
  | OpUpdate Process "Process option"
  | OpIsInStore int "Process option"
  | OpDelete int
  | OpTimerFires nat
  | OpDeleteOldItems "int list"
  | OpAddChecksumHash string
  | OpDelChecksumHash string
  | OpSetComputeChecksums bool
  | OpDisableChecksums

fun step :: "env \<Rightarrow> op \<Rightarrow> system \<Rightarrow> system" where
  "step ev (OpAdd p) s = s\<lparr>store := snd (Add ev p (store s))\<rparr>"
| "step ev (OpUpdateItem p) s = s\<lparr>store := UpdateItem ev p (store s)\<rparr>"
| "step ev (OpReplaceItem old new) s =
     s\<lparr>store := snd (snd (ReplaceItem ev old new (store s)))\<rparr>"
| "step ev (OpUpdate old p) s =
     (case Update ev old p (store s) of
        Inl _ \<Rightarrow> s
      | Inr (_, _, e') \<Rightarrow> s\<lparr>store := e'\<rparr>)"
| "step ev (OpIsInStore key p) s = s"
| "step ev (OpDelete key) s =
     (case Delete ev key (store s) of
        None \<Rightarrow> s
      | Some t \<Rightarrow> s\<lparr>timers := timers s @ [t]\<rparr>)"
| "step ev (OpTimerFires i) s =
     (if i < length (timers s) \<and> fst (timers s ! i) \<le> now ev
      then s\<lparr>store := timer_fire ev (timers s ! i) (store s),
              timers := take i (timers s) @ drop (Suc i) (timers s)\<rparr>
      else s)"
| "step ev (OpDeleteOldItems ks) s = s\<lparr>store := DeleteOldItems ev ks (store s)\<rparr>"
| "step ev (OpAddChecksumHash h) s = s\<lparr>store := AddChecksumHash h (store s)\<rparr>"
| "step ev (OpDelChecksumHash h) s = s\<lparr>store := DelChecksumHash h (store s)\<rparr>"
| "step ev (OpSetComputeChecksums b) s = s\<lparr>store := SetComputeChecksums ev b (store s)\<rparr>"
| "step ev OpDisableChecksums s = s\<lparr>store := DisableChecksums (store s)\<rparr>"

fun run :: "(env \<times> op) list \<Rightarrow> system \<Rightarrow> system" where
  "run [] s = s"
| "run ((ev, c) # cs) s = run cs (step ev c s)"

definition init_system :: system where
  "init_system = \<lparr>store = NewEventsStore, timers = []\<rparr>"

subsection \<open>Properties of a store\<close>

definition no_empty_path :: "EventsStore \<Rightarrow> bool" where
  "no_empty_path e = (\<forall>k item. eventByPID e k = Some item \<longrightarrow> Path (Proc item) \<noteq> [])"

definition ttl_unset :: "EventsStore \<Rightarrow> bool" where
  "ttl_unset e = (\<forall>k item. eventByPID e k = Some item \<longrightarrow> TTL item = 0)"

definition keyed_by_ID :: "EventsStore \<Rightarrow> bool" where
  "keyed_by_ID e = (\<forall>k item. eventByPID e k = Some item \<longrightarrow> ID (Proc item) = k)"


text \<open>
  A property \<open>P\<close> of the entries, and the condition under which every write of the store
  keeps it: it holds of the item \<open>UpdateItem\<close> writes and survives a change of the
  checksums.
\<close>

definition all_entries :: "(int \<Rightarrow> ExecEventItem \<Rightarrow> bool) \<Rightarrow> EventsStore \<Rightarrow> bool" where
  "all_entries P e = (\<forall>k item. eventByPID e k = Some item \<longrightarrow> P k item)"

definition holds_when_written :: "(int \<Rightarrow> ExecEventItem \<Rightarrow> bool) \<Rightarrow> bool" where
  "holds_when_written P =
     ((\<forall>t p. Path p \<noteq> [] \<longrightarrow> P (ID p) \<lparr>Proc = p, LastSeen = t, TTL = 0\<rparr>)
      \<and> (\<forall>k item c. P k item \<longrightarrow> P k (item\<lparr>Proc := set_Checksums c (Proc item)\<rparr>)))"

subsection \<open>Example values\<close>

definition env0 :: env where
  "env0 = \<lparr>now = 500, alive = (\<lambda>p. True), getParent = (\<lambda>p. None), buildTree = (\<lambda>p. []),
           computeChecksums = (\<lambda>t p. []), resetChecksums = (\<lambda>p. [])\<rparr>"

definition proc_a :: Process where
  "proc_a = Process 1 0 ''/bin/a'' 100 [] [] None"

definition item_a :: ExecEventItem where
  "item_a = \<lparr>Proc = proc_a, LastSeen = 100, TTL = 0\<rparr>"

definition store_a :: EventsStore where
  "store_a = NewEventsStore\<lparr>eventByPID := [1 \<mapsto> item_a]\<rparr>"

text \<open>A later incarnation of PID 1.\<close>

definition proc_b :: Process where
  "proc_b = Process 1 1 ''/bin/b'' 200 [] [] None"






definition proc_neg :: Process where
  "proc_neg = Process 42 0 ''/bin/a'' (- 1) [] [] None"

definition proc_x :: Process where
  "proc_x = Process 7 0 ''/bin/x'' 100 [] [] None"

definition proc_x_sums :: Process where
  "proc_x_sums = Process 7 0 ''/bin/x'' 50 [] [(''sha1'', ''abc'')] None"

definition store_x :: EventsStore where
  "store_x = NewEventsStore\<lparr>eventByPID := [7 \<mapsto> \<lparr>Proc = proc_x, LastSeen = 100, TTL = 0\<rparr>]\<rparr>"

definition proc_sums :: Process where
  "proc_sums = Process 1 0 ''/bin/a'' 100 [(''/sbin/init'', 1)] [(''sha1'', ''abc'')] None"

definition proc_b_sums :: Process where
  "proc_b_sums = Process 1 0 ''/bin/b'' 200 [(''/sbin/init'', 1)] [(''sha1'', ''def'')] None"

text \<open>Three entries last seen at 0, 0 and 20 s; at 21 s only PID 6 is running.\<close>

definition item_5 :: ExecEventItem where
  "item_5 = \<lparr>Proc = Process 5 0 ''/bin/dead'' 10 [] [] None, LastSeen = 0, TTL = 0\<rparr>"

definition item_6 :: ExecEventItem where
  "item_6 = \<lparr>Proc = Process 6 0 ''/bin/srv'' 10 [] [] None, LastSeen = 0, TTL = 0\<rparr>"

definition item_7 :: ExecEventItem where
  "item_7 = \<lparr>Proc = Process 7 0 ''/bin/new'' 10 [] [] None, LastSeen = 20000000000, TTL = 0\<rparr>"

definition store_j :: EventsStore where
  "store_j = NewEventsStore\<lparr>eventByPID := [5 \<mapsto> item_5, 6 \<mapsto> item_6, 7 \<mapsto> item_7]\<rparr>"

definition env_j :: env where
  "env_j = env0\<lparr>now := 21000000000, alive := (\<lambda>p. ID p = 6)\<rparr>"

definition proc_nopath :: Process where
  "proc_nopath = Process 3 0 [] 100 [] [] None"

definition store_enabled :: EventsStore where
  "store_enabled = store_a\<lparr>checksums := [''sha1'' \<mapsto> 1], checksumsEnabled := True\<rparr>"

definition trace_a :: "(env \<times> op) list" where
  "trace_a = [(env0, OpAdd proc_a), (env0, OpUpdateItem proc_nopath), (env0, OpDeleteOldItems [1])]"

definition trace_b :: "(env \<times> op) list" where
  "trace_b = [(env0, OpAdd proc_a), (env0, OpDelete 1), (env0, OpUpdateItem proc_b)]"

section \<open>Helper lemmas\<close>

lemma set_fields [simp]:
  "ID (set_PPID v p) = ID p" "Path (set_PPID v p) = Path p"
  "ID (set_Tree t p) = ID p" "Path (set_Tree t p) = Path p"
  "ID (set_Checksums c p) = ID p" "Path (set_Checksums c p) = Path p"
  "ID (set_Parent q p) = ID p" "Path (set_Parent q p) = Path p"
  by (simp_all add: set_PPID_def set_Tree_def set_Checksums_def set_Parent_def)

lemma UpdateItem_empty_path: "Path proc = [] \<Longrightarrow> UpdateItem ev proc e = e"
  by (simp add: UpdateItem_def)

text \<open>An item is valid exactly while it was seen less than 20 s ago.\<close>

lemma isValid_iff: "isValid t item \<longleftrightarrow> t - LastSeen item < 20000000000"
  by (auto simp: isValid_def whole_seconds_def time_Sub_def pidTTL_def maxDuration_def
        minDuration_def Let_def)

lemma DeleteOldItems_loop_lookup:
  "DeleteOldItems_loop ev ks m k =
     (case m k of
        None \<Rightarrow> None
      | Some item \<Rightarrow>
          if k \<in> set ks \<and> \<not> isValid (now ev) item \<and> \<not> alive ev (Proc item) then None
          else Some item)"
  by (induction ks arbitrary: m) (auto split: option.splits)

subsection \<open>Properties of the entries that every call keeps\<close>

lemma UpdateItem_entries:
  assumes "holds_when_written P" and "all_entries P e"
  shows "all_entries P (UpdateItem ev p e)"
  using assms by (auto simp: UpdateItem_def Let_def all_entries_def holds_when_written_def)

lemma Add_entries:
  assumes w: "holds_when_written P" and inv: "all_entries P e"
  shows "all_entries P (snd (Add ev p e))"
  by (simp add: Add_def Let_def UpdateItem_entries [OF w] inv split: prod.splits)

lemma ReplaceItem_entries:
  assumes w: "holds_when_written P" and inv: "all_entries P e"
  shows "all_entries P (snd (snd (ReplaceItem ev old new e)))"
  by (simp add: ReplaceItem_def Let_def UpdateItem_entries [OF w] inv split: prod.splits)

lemma Update_entries:
  assumes w: "holds_when_written P" and inv: "all_entries P e"
    and res: "Update ev old proc e = Inr (old', proc', e')"
  shows "all_entries P e'"
proof (cases "case proc of None \<Rightarrow> False | Some p \<Rightarrow> ID p = ID old \<and> Path p \<noteq> Path old")
  case True
  then obtain q where q: "proc = Some q" by (cases proc) auto
  with True res ReplaceItem_entries [OF w inv, of ev old q] show ?thesis
    by (auto simp: Update_def split: prod.splits)
next
  case False
  with res inv show ?thesis
    by (auto simp: Update_def Let_def UpdateItem_entries [OF w]
          split: prod.splits option.splits if_splits)
qed

lemma timer_fire_entries:
  "all_entries P e \<Longrightarrow> all_entries P (timer_fire ev t e)"
  by (auto simp: timer_fire_def all_entries_def split: prod.splits)

lemma DeleteOldItems_entries:
  "all_entries P e \<Longrightarrow> all_entries P (DeleteOldItems ev ks e)"
  by (auto simp: DeleteOldItems_def all_entries_def DeleteOldItems_loop_lookup
        split: option.splits if_splits)

lemma SetComputeChecksums_entries:
  assumes "holds_when_written P" and "all_entries P e"
  shows "all_entries P (SetComputeChecksums ev b e)"
  using assms
  by (auto simp: SetComputeChecksums_def all_entries_def holds_when_written_def
        split: if_splits)

lemma checksum_table_entries:
  "all_entries P (AddChecksumHash h e) = all_entries P e"
  "all_entries P (DelChecksumHash h e) = all_entries P e"
  "all_entries P (DisableChecksums e) = all_entries P e"
  by (simp_all add: all_entries_def AddChecksumHash_def DelChecksumHash_def
        DisableChecksums_def split: option.splits)

lemma step_entries:
  assumes w: "holds_when_written P" and inv: "all_entries P (store s)"
  shows "all_entries P (store (step ev c s))"
proof (cases c)
  case (OpUpdate old p)
  show ?thesis
  proof (cases "Update ev old p (store s)")
    case (Inl a)
    with OpUpdate inv show ?thesis by simp
  next
    case (Inr r)
    obtain old' p' e' where r: "r = (old', p', e')" by (cases r)
    from Update_entries [OF w inv] Inr r have "all_entries P e'" by simp
    with OpUpdate Inr r show ?thesis by simp
  qed
qed (simp_all add: inv Add_entries [OF w] UpdateItem_entries [OF w] ReplaceItem_entries [OF w]
       timer_fire_entries DeleteOldItems_entries SetComputeChecksums_entries [OF w]
       checksum_table_entries split: option.splits)

lemma run_entries:
  assumes w: "holds_when_written P"
  shows "all_entries P (store s) \<Longrightarrow> all_entries P (store (run cs s))"
proof (induction cs arbitrary: s)
  case Nil
  then show ?case by simp
next
  case (Cons c cs)
  obtain ev c' where c: "c = (ev, c')" by (cases c)
  from Cons.prems have "all_entries P (store (step ev c' s))" by (rule step_entries [OF w])
  then have "all_entries P (store (run cs (step ev c' s)))" by (rule Cons.IH)
  with c show ?case by simp
qed




text \<open>\<open>Update\<close> never panics: every read of \<open>proc\<close> is behind a nil check.\<close>

lemma Update_no_panic: "\<exists>r. Update ev oldProc proc e = Inr r"
  by (cases proc) (auto simp: Update_def Let_def split: prod.splits)

section \<open>Lookup\<close>

text \<open>
  C1. A lookup of a present PID returns \<open>found = true\<close> and a snapshot stamped with the
  current time, but the entry held in the store keeps its old \<open>LastSeen\<close>: with PID 1
  stored at time 100, a lookup at time 500 returns \<open>LastSeen = 500\<close> and leaves 100 in
  the store.
\<close>

theorem IsInStoreByPID_leaves_stored_LastSeen:
  "(case IsInStoreByPID env0 1 store_a of
      (item, found, e') \<Rightarrow>
        found \<and> LastSeen item = 500 \<and> map_option LastSeen (eventByPID e' 1) = Some 100)"
  by (simp add: IsInStoreByPID_def env0_def store_a_def item_a_def NewEventsStore_def)

section \<open>Deferred deletion\<close>



section \<open>The out-of-order guard of UpdateItem\<close>

text \<open>
  C3 (amended). For a process with a non-empty path and, when the store has no entry for
  its PID, a non-negative starttime: \<open>UpdateItem\<close> leaves the store unchanged exactly when
  the existing entry for the PID has a different path and a strictly greater starttime; in
  every other case (so whenever the paths are equal) it overwrites the entry for the PID
  with a fresh item holding the process, checksums included, and \<open>LastSeen = now\<close>.
\<close>

theorem UpdateItem_out_of_order_guard:
  assumes "Path proc \<noteq> []"
    and "eventByPID e (ID proc) \<noteq> None \<or> 0 \<le> Starttime proc"
  shows "UpdateItem ev proc e =
    (if (\<exists>old. eventByPID e (ID proc) = Some old \<and> Path (Proc old) \<noteq> Path proc
            \<and> Starttime (Proc old) > Starttime proc)
     then e
     else e\<lparr>eventByPID := (eventByPID e)
              (ID proc \<mapsto> \<lparr>Proc = proc, LastSeen = now ev, TTL = 0\<rparr>)\<rparr>)"
  using assms
  by (cases "eventByPID e (ID proc)")
     (auto simp: UpdateItem_def lookup_item_def zero_ExecEventItem_def zero_Process_def Let_def)

text \<open>A same-path update with an older starttime and a checksum replaces the entry.\<close>

theorem UpdateItem_out_of_order_guard_witness:
  "Path proc_x_sums \<noteq> [] \<and> eventByPID store_x (ID proc_x_sums) \<noteq> None
   \<and> Starttime proc_x_sums < Starttime proc_x
   \<and> eventByPID (UpdateItem env0 proc_x_sums store_x) 7
       = Some \<lparr>Proc = proc_x_sums, LastSeen = 500, TTL = 0\<rparr>"
  using UpdateItem_out_of_order_guard [of proc_x_sums store_x env0]
  by (simp add: proc_x_sums_def proc_x_def store_x_def env0_def)

text \<open>
  Without an entry the guard compares with the zero value, path \<open>""\<close> and starttime 0: a
  process with starttime \<open>-1\<close> is discarded although the store has no entry for its PID.
\<close>

theorem UpdateItem_absent_negative_starttime_counterexample:
  "Path proc_neg \<noteq> [] \<and> eventByPID NewEventsStore (ID proc_neg) = None
   \<and> UpdateItem env0 proc_neg NewEventsStore = NewEventsStore"
  by (simp add: UpdateItem_def lookup_item_def zero_ExecEventItem_def zero_Process_def
        proc_neg_def NewEventsStore_def Let_def)

section \<open>The update-needed predicate\<close>

text \<open>
  C4 (amended). For every cached process and every non-nil candidate:
  \<open>needsUpdate(cached, candidate)\<close> returns true when the candidate has the cached PID
  and another path; otherwise it returns false whenever the cached process has at least
  one checksum and is alive.
\<close>

theorem needsUpdate_cache_hit:
  "(ID p = ID cached \<and> Path p \<noteq> Path cached \<longrightarrow> needsUpdate ev cached (Some p))
   \<and> (ChecksumsCount cached > 0 \<and> alive ev cached
        \<and> \<not> (ID p = ID cached \<and> Path p \<noteq> Path cached)
      \<longrightarrow> \<not> needsUpdate ev cached (Some p))"
  by (auto simp: needsUpdate_def Let_def)

text \<open>
  Against a live cached \<open>/bin/a\<close> with a checksum: the candidate \<open>/bin/a\<close> of the same PID
  gives false, the candidate \<open>/bin/b\<close> of the same PID gives true.
\<close>

theorem needsUpdate_cache_hit_witness:
  "ChecksumsCount proc_sums > 0 \<and> alive env0 proc_sums
   \<and> ID proc_a = ID proc_sums \<and> Path proc_a = Path proc_sums
   \<and> \<not> needsUpdate env0 proc_sums (Some proc_a)
   \<and> ID proc_b_sums = ID proc_sums \<and> Path proc_b_sums \<noteq> Path proc_sums
   \<and> needsUpdate env0 proc_sums (Some proc_b_sums)"
  using needsUpdate_cache_hit [of proc_a proc_sums env0]
    needsUpdate_cache_hit [of proc_b_sums proc_sums env0]
  by (simp add: ChecksumsCount_def proc_sums_def proc_b_sums_def proc_a_def env0_def)

text \<open>
  The count that is read is the cached process's: a candidate with a checksum and a live
  cached process without one give true. So do a candidate and a live cached process that
  both have checksums, when the candidate has the same PID and another path.
\<close>

theorem needsUpdate_candidate_checksums_counterexample:
  "ChecksumsCount proc_sums > 0 \<and> alive env0 proc_a \<and> needsUpdate env0 proc_a (Some proc_sums)
   \<and> ChecksumsCount proc_b_sums > 0 \<and> alive env0 proc_sums
   \<and> needsUpdate env0 proc_sums (Some proc_b_sums)"
  by (simp add: needsUpdate_def ChecksumsCount_def proc_sums_def proc_b_sums_def proc_a_def
        env0_def)

section \<open>The janitor's sweep\<close>

text \<open>
  C5. After \<open>DeleteOldItems\<close> at time \<open>now\<close>, whatever the order in which the loop visits
  the keys of the store: an entry seen at least 20 s ago whose process is not alive is
  removed; an entry whose process is alive remains, however old; an entry seen less than
  20 s ago remains.
\<close>

theorem DeleteOldItems_sweep:
  assumes "set ks = dom (eventByPID e)" and "eventByPID e k = Some item"
  shows "(now ev - LastSeen item \<ge> 20000000000 \<and> \<not> alive ev (Proc item)
            \<longrightarrow> eventByPID (DeleteOldItems ev ks e) k = None)
       \<and> (alive ev (Proc item) \<longrightarrow> eventByPID (DeleteOldItems ev ks e) k = Some item)
       \<and> (now ev - LastSeen item < 20000000000
            \<longrightarrow> eventByPID (DeleteOldItems ev ks e) k = Some item)"
proof -
  from assms have "k \<in> set ks" by auto
  with assms(2) show ?thesis
    by (simp add: DeleteOldItems_def DeleteOldItems_loop_lookup isValid_iff)
qed

theorem DeleteOldItems_sweep_witness:
  "set [5, 6, 7] = dom (eventByPID store_j)
   \<and> eventByPID store_j 5 = Some item_5 \<and> eventByPID store_j 6 = Some item_6
   \<and> eventByPID store_j 7 = Some item_7
   \<and> now env_j - LastSeen item_5 \<ge> 20000000000 \<and> \<not> alive env_j (Proc item_5)
   \<and> now env_j - LastSeen item_6 \<ge> 20000000000 \<and> alive env_j (Proc item_6)
   \<and> now env_j - LastSeen item_7 < 20000000000 \<and> \<not> alive env_j (Proc item_7)
   \<and> eventByPID (DeleteOldItems env_j [5, 6, 7] store_j) 5 = None
   \<and> eventByPID (DeleteOldItems env_j [5, 6, 7] store_j) 6 = Some item_6
   \<and> eventByPID (DeleteOldItems env_j [5, 6, 7] store_j) 7 = Some item_7"
proof -
  have ks: "set [5, 6, 7] = dom (eventByPID store_j)"
    by (auto simp: store_j_def)
  have e: "eventByPID store_j 5 = Some item_5" "eventByPID store_j 6 = Some item_6"
    "eventByPID store_j 7 = Some item_7"
    by (simp_all add: store_j_def)
  have h: "now env_j - LastSeen item_5 \<ge> 20000000000" "\<not> alive env_j (Proc item_5)"
    "now env_j - LastSeen item_6 \<ge> 20000000000" "alive env_j (Proc item_6)"
    "now env_j - LastSeen item_7 < 20000000000" "\<not> alive env_j (Proc item_7)"
    by (simp_all add: env_j_def env0_def item_5_def item_6_def item_7_def)
  from DeleteOldItems_sweep [OF ks e(1), of env_j] DeleteOldItems_sweep [OF ks e(2), of env_j]
    DeleteOldItems_sweep [OF ks e(3), of env_j] ks e h
  show ?thesis by simp
qed

section \<open>The checksum-algorithm table\<close>

text \<open>
  C6 (amended). \<open>AddChecksumHash(h)\<close> followed by \<open>DelChecksumHash(h)\<close> leaves every
  count as it was, a missing name read as count 0: the table afterwards is the table
  before with \<open>h\<close> mapped to its earlier count. It is equal to the table before when \<open>h\<close>
  was a key, and otherwise has the new key \<open>h\<close> with count 0.
\<close>

theorem AddChecksumHash_then_DelChecksumHash:
  "checksums (DelChecksumHash h (AddChecksumHash h e)) =
     (checksums e)(h \<mapsto> (case checksums e h of None \<Rightarrow> 0 | Some c \<Rightarrow> c))"
  by (auto simp: DelChecksumHash_def AddChecksumHash_def split: option.splits)

text \<open>On the empty table the two calls leave the key \<open>sha1\<close> behind.\<close>

theorem AddChecksumHash_then_DelChecksumHash_counterexample:
  "checksums (DelChecksumHash ''sha1'' (AddChecksumHash ''sha1'' NewEventsStore))
     \<noteq> checksums NewEventsStore"
proof
  assume "checksums (DelChecksumHash ''sha1'' (AddChecksumHash ''sha1'' NewEventsStore))
     = checksums NewEventsStore"
  then have "checksums (DelChecksumHash ''sha1'' (AddChecksumHash ''sha1'' NewEventsStore)) ''sha1''
     = checksums NewEventsStore ''sha1''"
    by simp
  then show False
    by (simp add: DelChecksumHash_def AddChecksumHash_def NewEventsStore_def)
qed

section \<open>Invariants of the store\<close>

text \<open>A run from the new store: \<open>Add\<close>, an \<open>UpdateItem\<close> without path, a sweep.\<close>

lemma run_trace_a:
  "eventByPID (store (run trace_a init_system)) 1 = Some \<lparr>Proc = proc_a, LastSeen = 500, TTL = 0\<rparr>"
  by (simp add: trace_a_def init_system_def NewEventsStore_def Add_def UpdateItem_def
        lookup_item_def zero_ExecEventItem_def zero_Process_def GetComputeChecksums_def
        DeleteOldItems_def isValid_iff env0_def proc_a_def proc_nopath_def Let_def)

text \<open>
  C7. No stored item has an empty path: every sequence of calls of the cache (\<open>Add\<close>,
  \<open>UpdateItem\<close>, \<open>ReplaceItem\<close>, \<open>Update\<close>, \<open>Delete\<close> and its timer, \<open>DeleteOldItems\<close>, the
  lookups and the checksum settings), in whatever environments, keeps the property that
  every entry of the PID map has a non-empty path.
\<close>

theorem run_preserves_no_empty_path:
  assumes "no_empty_path (store s)"
  shows "no_empty_path (store (run cs s))"
proof -
  have w: "holds_when_written (\<lambda>k item. Path (Proc item) \<noteq> [])"
    by (simp add: holds_when_written_def)
  have eq: "no_empty_path e = all_entries (\<lambda>k item. Path (Proc item) \<noteq> []) e" for e
    by (simp add: no_empty_path_def all_entries_def)
  from assms show ?thesis unfolding eq by (rule run_entries [OF w])
qed

theorem run_preserves_no_empty_path_witness:
  "no_empty_path (store init_system)
   \<and> eventByPID (store (run trace_a init_system)) 1 \<noteq> None
   \<and> no_empty_path (store (run trace_a init_system))"
proof -
  have h: "no_empty_path (store init_system)"
    by (simp add: no_empty_path_def init_system_def NewEventsStore_def)
  from run_preserves_no_empty_path [OF h, of trace_a] h run_trace_a show ?thesis by simp
qed

text \<open>
  Every entry is stored under the PID of its process, from the new store on: the key of
  each write is \<open>proc.ID\<close>.
\<close>

theorem run_preserves_keyed_by_ID:
  assumes "keyed_by_ID (store s)"
  shows "keyed_by_ID (store (run cs s))"
proof -
  have w: "holds_when_written (\<lambda>k item. ID (Proc item) = k)"
    by (simp add: holds_when_written_def)
  have eq: "keyed_by_ID e = all_entries (\<lambda>k item. ID (Proc item) = k) e" for e
    by (simp add: keyed_by_ID_def all_entries_def)
  from assms show ?thesis unfolding eq by (rule run_entries [OF w])
qed

theorem run_preserves_keyed_by_ID_witness:
  "keyed_by_ID (store init_system)
   \<and> eventByPID (store (run trace_b init_system)) 1 \<noteq> None
   \<and> keyed_by_ID (store (run trace_b init_system))"
proof -
  have h: "keyed_by_ID (store init_system)"
    by (simp add: keyed_by_ID_def init_system_def NewEventsStore_def)
  have "eventByPID (store (run trace_b init_system)) 1 \<noteq> None"
    by (simp add: trace_b_def init_system_def NewEventsStore_def Add_def UpdateItem_def
          lookup_item_def zero_ExecEventItem_def zero_Process_def GetComputeChecksums_def
          Delete_def env0_def proc_a_def proc_b_def Let_def)
  with run_preserves_keyed_by_ID [OF h, of trace_b] h show ?thesis by simp
qed

text \<open>
  C8 (amended). Every item held in a store that was built from the new store has its
  \<open>TTL\<close> field equal to 0: no call assigns it, and the 20 s are the package constant
  \<open>pidTTL\<close>. In particular any item returned by \<open>IsInStoreByPID\<close> or \<open>IsInStore\<close> carries
  \<open>TTL = 0\<close>.
\<close>

theorem stored_TTL_is_zero:
  "ttl_unset (store (run cs init_system))
   \<and> TTL (fst (IsInStoreByPID ev key (store (run cs init_system)))) = 0
   \<and> TTL (fst (IsInStore ev key proc (store (run cs init_system)))) = 0"
proof -
  have w: "holds_when_written (\<lambda>k item. TTL item = 0)"
    by (simp add: holds_when_written_def)
  have "all_entries (\<lambda>k item. TTL item = 0) (store init_system)"
    by (simp add: all_entries_def init_system_def NewEventsStore_def)
  then have a: "all_entries (\<lambda>k item. TTL item = 0) (store (run cs init_system))"
    by (rule run_entries [OF w])
  then have 1: "ttl_unset (store (run cs init_system))"
    by (simp add: ttl_unset_def all_entries_def)
  from a have 2: "TTL (fst (IsInStoreByPID ev key (store (run cs init_system)))) = 0"
    by (auto simp: IsInStoreByPID_def all_entries_def zero_ExecEventItem_def split: option.splits)
  then have 3: "TTL (fst (IsInStore ev key proc (store (run cs init_system)))) = 0"
    by (auto simp: IsInStore_def split: prod.splits)
  from 1 2 3 show ?thesis by simp
qed

theorem stored_TTL_is_zero_witness:
  "eventByPID (store (run trace_a init_system)) 1 \<noteq> None
   \<and> ttl_unset (store (run trace_a init_system))
   \<and> TTL (fst (IsInStoreByPID env0 1 (store (run trace_a init_system)))) = 0
   \<and> TTL (fst (IsInStore env0 1 None (store (run trace_a init_system)))) = 0"
  using stored_TTL_is_zero [of trace_a env0 1 None] run_trace_a by simp

text \<open>The item stored by \<open>Add\<close> on the new store, and the one a lookup returns, have \<open>TTL = 0\<close>.\<close>

theorem stored_TTL_counterexample:
  "eventByPID (snd (Add env0 proc_a NewEventsStore)) 1
     = Some \<lparr>Proc = proc_a, LastSeen = 500, TTL = 0\<rparr>
   \<and> TTL (fst (IsInStoreByPID env0 1 (snd (Add env0 proc_a NewEventsStore)))) \<noteq> 20"
  by (simp add: Add_def UpdateItem_def lookup_item_def zero_ExecEventItem_def zero_Process_def
        GetComputeChecksums_def IsInStoreByPID_def NewEventsStore_def env0_def proc_a_def Let_def)

section \<open>Add without a path\<close>

text \<open>
  C9. For every process with an empty path, \<open>Add\<close> returns without any change: the store
  afterwards, its PID map with every item and \<open>LastSeen\<close> included, is the store before.
\<close>

theorem Add_empty_path: "Path proc = [] \<Longrightarrow> snd (Add ev proc e) = e"
  by (auto simp: Add_def Let_def UpdateItem_empty_path ComputeChecksums_def
        split: prod.splits if_splits)

text \<open>With checksums enabled the checksums are computed, and the second write is dropped too.\<close>

theorem Add_empty_path_witness:
  "Path proc_nopath = [] \<and> GetComputeChecksums store_enabled
   \<and> snd (ComputeChecksums env0 proc_nopath store_enabled)
   \<and> snd (Add env0 proc_nopath store_enabled) = store_enabled"
proof -
  have h: "Path proc_nopath = []" by (simp add: proc_nopath_def)
  have c: "GetComputeChecksums store_enabled"
    "snd (ComputeChecksums env0 proc_nopath store_enabled)"
    by (simp_all add: GetComputeChecksums_def ComputeChecksums_def store_enabled_def
          ChecksumsCount_def proc_nopath_def)
  from Add_empty_path [OF h, of env0 store_enabled] h c show ?thesis by simp
qed

section \<open>Update with a nil process\<close>

text \<open>
  C10. For every \<open>oldProc\<close>, \<open>Update(oldProc, nil)\<close> does not panic: no branch reads the nil
  process. The store is touched only when \<open>oldProc.Tree\<close> is empty, by the write-back of
  \<open>oldProc\<close> after \<open>GetParent\<close> and \<open>BuildTree\<close>; otherwise it is returned as it was.
\<close>

theorem Update_nil:
  "Update ev oldProc None e =
     Inr (if length (Tree oldProc) = 0
          then (BuildTree ev (GetParent ev oldProc), None,
                UpdateItem ev (BuildTree ev (GetParent ev oldProc)) e)
          else (oldProc, None, e))"
  by (simp add: Update_def Let_def)

end
